theory Spec2Isabelle
  imports Main "HOL-Library.Sublist"
begin

section \<open>The WAMP server of server.go\<close>

text \<open>
  A shallow embedding of \<^verbatim>\<open>server.go\<close>. The server \<^verbatim>\<open>WS\<close> is a record of its
  maps and every method takes the server and returns the server it leaves behind.
  The two locks are left out: each method is modelled as running from its first line to
  its last without another one in between.

  \<^item> A Go map is a HOL map. A \<^verbatim>\<open>range\<close> loop over a map visits the keys in an order the
    runtime chooses, so every function with such a loop takes that order as an argument
    (a key list) and the theorems hold for every order that lists the keys of the map.
  \<^item> \<^verbatim>\<open>interface{}\<close> is the type variable \<open>'v\<close>.
  \<^item> Handlers are Go function values: here total functions without effect on the server.
    Only the publish handler is tested against \<^verbatim>\<open>nil\<close> by the code, so only it is
    optional.
  \<^item> A \<^verbatim>\<open>*conn\<close> is known by its id. What has been put on the \<^verbatim>\<open>sendChan\<close> of a
    connection is kept per id in \<open>sendChans\<close>, oldest first; the capacity of the
    channel and the \<^verbatim>\<open>sender\<close> goroutine that drains it are not modelled, and
    \<^verbatim>\<open>go c.send(m)\<close> puts \<open>m\<close> on the channel like \<^verbatim>\<open>c.send(m)\<close>.
\<close>

subsection \<open>Errors, message kinds and what goes on a channel\<close>

text \<open>
  Modelled from the spec: the error values and the message kinds that \<^verbatim>\<open>server.go\<close>
  names are declared in other files of the package. The spec lists the error kinds and
  the message kinds of the wire envelope as different from one another, so each name is
  a constructor of its own. \<open>Wrap e m\<close> is \<^verbatim>\<open>errors.Wrap(e, m)\<close>; \<open>ErrOther\<close> is any
  error of a handler or a parser; \<open>msgOther\<close> is any kind without a name here.
\<close>

datatype err =
    ErrHandlerAlreadyRegistered
  | ErrRPCNotRegistered
  | ErrSubURINotRegistered
  | ErrForbidden
  | ErrNotSubscribes
  | ErrOther string
  | Wrap err string

datatype msgType =
    msgPrefix | msgCall | msgCallResult | msgCallError
  | msgSubscribe | msgUnsubscribe | msgPublish | msgEvent
  | msgSubscribed | msgSubscribeError | msgUnsubscribed | msgUnSubscribeError
  | msgHeartbeat | msgOther int

text \<open>
  Modelled from the spec: \<^verbatim>\<open>createMessage\<close> and \<^verbatim>\<open>createError\<close> are not in
  \<^verbatim>\<open>server.go\<close>. In the spec a message on the wire is its kind followed by its fields,
  and an error object carries the error. The model keeps what the two functions are
  called with: \<open>Encoded t args\<close> is the value of \<^verbatim>\<open>createMessage(t, args...)\<close> (its error
  is dropped by every caller) and \<open>ArgErr e\<close> the value of \<^verbatim>\<open>createError(e)\<close>.
  \<open>Raw d\<close> is the string \<open>d\<close> sent as it is.
\<close>

datatype 'v arg = ArgStr string | ArgVal 'v | ArgErr err

datatype 'v item = Encoded msgType "'v arg list" | Raw string

definition createError :: "err \<Rightarrow> 'v arg" where
  "createError e = ArgErr e"

definition createMessage :: "msgType \<Rightarrow> 'v arg list \<Rightarrow> 'v item" where
  "createMessage t args = Encoded t args"

subsection \<open>The server\<close>

type_synonym 'v RPCHandler = "string \<Rightarrow> string \<Rightarrow> 'v list \<Rightarrow> 'v \<times> err option"
type_synonym 'v SubHandler = "string \<Rightarrow> string \<Rightarrow> 'v list \<Rightarrow> bool"
type_synonym 'v PubHandler = "string \<Rightarrow> 'v \<Rightarrow> 'v \<Rightarrow> bool \<times> 'v"

record 'v subHandler =
  subHandler :: "'v SubHandler"
  pubHandler :: "'v PubHandler option"

type_synonym subscribersMap = "string \<rightharpoonup> bool"

text \<open>
  Modelled from the spec: the constant \<^verbatim>\<open>subscriberExists\<close> is declared outside
  \<^verbatim>\<open>server.go\<close>. In the spec the subscribers of a topic are a set of ids; the code
  only ever tests whether an id is a key of the map, and never reads the flag.
\<close>

definition subscriberExists :: bool where
  "subscriberExists = True"

text \<open>
  A \<^verbatim>\<open>*regexp.Regexp\<close> is a pointer: \<open>Regexp a src\<close> is the compiled pattern at address
  \<open>a\<close> with source text \<open>src\<close>. Two patterns compiled from one text are two keys of
  \<^verbatim>\<open>rpcRgxHandlers\<close>.
\<close>

datatype regexp = Regexp nat string

fun String :: "regexp \<Rightarrow> string" where
  "String (Regexp a src) = src"

record 'v conn =
  id_conn :: string
  extra :: 'v

record 'v WS =
  connections :: "string \<rightharpoonup> 'v conn"
  rpcHandlers :: "string \<rightharpoonup> 'v RPCHandler"
  rpcRgxHandlers :: "regexp \<rightharpoonup> 'v RPCHandler"
  subHandlers :: "string \<rightharpoonup> 'v subHandler"
  subscribers :: "string \<rightharpoonup> subscribersMap"
  sendChans :: "string \<Rightarrow> 'v item list"

definition New :: "'v WS" where
  "New = \<lparr> connections = Map.empty, rpcHandlers = Map.empty, rpcRgxHandlers = Map.empty,
           subHandlers = Map.empty, subscribers = Map.empty, sendChans = (\<lambda>_. []) \<rparr>"

text \<open>\<open>ranges ks m\<close>: the key list \<open>ks\<close> is one order in which \<^verbatim>\<open>range m\<close> can run.\<close>

definition ranges :: "'k list \<Rightarrow> ('k \<rightharpoonup> 'a) \<Rightarrow> bool" where
  "ranges ks m = (distinct ks \<and> set ks = dom m)"

subsection \<open>Registration\<close>

text \<open>The first argument of \<^verbatim>\<open>RegisterRPCHandler\<close> is an \<^verbatim>\<open>interface{}\<close> under a type switch.\<close>

datatype 'v uriArg = UriString string | UriRegexp regexp | UriOther 'v

text \<open>The loop of lines 70 to 74 over the keys \<open>ks\<close>: does it return the error?\<close>

fun rgxRegistered :: "regexp list \<Rightarrow> regexp \<Rightarrow> bool" where
  "rgxRegistered [] rgx = False"
| "rgxRegistered (k # ks) rgx = (if String k = String rgx then True else rgxRegistered ks rgx)"

definition RegisterRPCHandler ::
  "regexp list \<Rightarrow> 'v WS \<Rightarrow> 'v uriArg \<Rightarrow> 'v RPCHandler \<Rightarrow> err option \<times> 'v WS" where
  "RegisterRPCHandler ks server uri0 fn =
     (case uri0 of
        UriString uri \<Rightarrow>
          (case rpcHandlers server uri of
             Some _ \<Rightarrow>
               (Some (Wrap ErrHandlerAlreadyRegistered ''when registering string rpcHandler''),
                server)
           | None \<Rightarrow> (None, server\<lparr> rpcHandlers := (rpcHandlers server)(uri \<mapsto> fn) \<rparr>))
      | UriRegexp rgx \<Rightarrow>
          (if rgxRegistered ks rgx
           then (Some (Wrap ErrHandlerAlreadyRegistered ''when registering rgx rpcHandler''),
                 server)
           else (None, server\<lparr> rpcRgxHandlers := (rpcRgxHandlers server)(rgx \<mapsto> fn) \<rparr>))
      | UriOther _ \<Rightarrow> (None, server))"

definition RegisterSubHandler ::
  "'v WS \<Rightarrow> string \<Rightarrow> 'v SubHandler \<Rightarrow> 'v PubHandler option \<Rightarrow> err option \<times> 'v WS" where
  "RegisterSubHandler server uri fnSub fnPub =
     (case subHandlers server uri of
        Some _ \<Rightarrow> (Some (Wrap ErrHandlerAlreadyRegistered ''when registering subHandler''), server)
      | None \<Rightarrow>
          (None, server\<lparr> subHandlers := (subHandlers server)
             (uri \<mapsto> \<lparr> subHandler = fnSub, pubHandler = fnPub \<rparr>) \<rparr>))"

subsection \<open>Connections\<close>

text \<open>
  \<^verbatim>\<open>newUUIDv4\<close> is not in \<^verbatim>\<open>server.go\<close>: the id it returns is an argument. The new
  connection has a new, empty channel.
\<close>

definition addConnection :: "string \<Rightarrow> 'v WS \<Rightarrow> 'v \<Rightarrow> 'v conn \<times> 'v WS" where
  "addConnection newUUIDv4 server ex =
     (let cn = \<lparr> id_conn = newUUIDv4, extra = ex \<rparr>
      in (cn, server\<lparr> connections := (connections server)(id_conn cn \<mapsto> cn),
                      sendChans := (sendChans server)(id_conn cn := []) \<rparr>))"

definition getConnection :: "'v WS \<Rightarrow> string \<Rightarrow> err + 'v conn" where
  "getConnection server i =
     (case connections server i of
        None \<Rightarrow> Inl (ErrOther ''NOT FOUND'')
      | Some cn \<Rightarrow> Inr cn)"

text \<open>The loop of lines 330 to 332 over the topics \<open>uris\<close>.\<close>

fun purge :: "string \<Rightarrow> string list \<Rightarrow> (string \<rightharpoonup> subscribersMap) \<Rightarrow> (string \<rightharpoonup> subscribersMap)" where
  "purge i [] subs = subs"
| "purge i (uri # uris) subs =
     (case subs uri of
        None \<Rightarrow> purge i uris subs
      | Some members \<Rightarrow> purge i uris (subs(uri \<mapsto> members(i := None))))"

definition deleteConnection :: "string list \<Rightarrow> 'v WS \<Rightarrow> string \<Rightarrow> 'v WS" where
  "deleteConnection uris server i =
     server\<lparr> connections := (connections server)(i := None),
             subscribers := purge i uris (subscribers server) \<rparr>"

definition send :: "'v WS \<Rightarrow> 'v conn \<Rightarrow> 'v item \<Rightarrow> 'v WS" where
  "send server c msg =
     server\<lparr> sendChans := (sendChans server)(id_conn c := sendChans server (id_conn c) @ [msg]) \<rparr>"

subsection \<open>Publish\<close>

text \<open>
  Lines 101 to 118: the ids of the subscribers of \<open>uri\<close>, copied under the read lock in
  the order \<open>ids\<close> of the \<^verbatim>\<open>range\<close> loop; \<open>None\<close> when \<^verbatim>\<open>Publish\<close> returns early.
\<close>

definition snapshot :: "string list \<Rightarrow> 'v WS \<Rightarrow> string \<Rightarrow> string list option" where
  "snapshot ids server uri =
     (case subscribers server uri of
        None \<Rightarrow> None
      | Some members \<Rightarrow> if dom members = {} then None else Some ids)"

text \<open>Lines 119 to 138: the loop over the copied ids.\<close>

fun deliver :: "'v WS \<Rightarrow> 'v PubHandler option \<Rightarrow> string \<Rightarrow> 'v \<Rightarrow> string list \<Rightarrow> 'v WS" where
  "deliver server ph uri event [] = server"
| "deliver server ph uri event (i # subscriberIds) =
     (case getConnection server i of
        Inl e \<Rightarrow> deliver server ph uri event subscriberIds
      | Inr c \<Rightarrow>
          (case ph of
             Some f \<Rightarrow>
               (case f uri event (extra c) of
                  (allow, modifiedEvent) \<Rightarrow>
                    if \<not> allow then deliver server ph uri event subscriberIds
                    else deliver
                      (send server c (createMessage msgEvent [ArgStr uri, ArgVal modifiedEvent]))
                      ph uri event subscriberIds)
           | None \<Rightarrow>
               deliver (send server c (createMessage msgEvent [ArgStr uri, ArgVal event]))
                 ph uri event subscriberIds))"

definition Publish :: "string list \<Rightarrow> 'v WS \<Rightarrow> string \<Rightarrow> 'v \<Rightarrow> 'v WS" where
  "Publish ids server uri event =
     (let ph = (case subHandlers server uri of
                  Some handler \<Rightarrow> pubHandler handler
                | None \<Rightarrow> None)
      in case snapshot ids server uri of
           None \<Rightarrow> server
         | Some subscriberIds \<Rightarrow> deliver server ph uri event subscriberIds)"

subsection \<open>Frames\<close>

text \<open>
  \<^verbatim>\<open>parseMessage\<close> and \<^verbatim>\<open>parseWampMessage\<close> are not in \<^verbatim>\<open>server.go\<close>, and
  \<^verbatim>\<open>MatchString\<close> is the regexp library's: the three are fields of a record that the
  handlers take. \<^verbatim>\<open>parseMessage\<close> returns its three results as Go does, the kind and
  the fields also beside an error; of \<^verbatim>\<open>parseWampMessage\<close> the callers use either the
  error or the message.
\<close>

record 'v wampMsg =
  CallID :: 'v
  URI :: string
  Args :: "'v list"

record 'v outside =
  parseMessage :: "string \<Rightarrow> msgType \<times> 'v list \<times> err option"
  parseWampMessage :: "msgType \<Rightarrow> 'v list \<Rightarrow> err + 'v wampMsg"
  MatchString :: "regexp \<Rightarrow> string \<Rightarrow> bool"

text \<open>
  Lines 200 to 206: the loop over the patterns \<open>ks\<close>; \<open>Some handler\<close> when it leaves
  with \<^verbatim>\<open>ok\<close> set.
\<close>

fun rgxLoop ::
  "(regexp \<Rightarrow> string \<Rightarrow> bool) \<Rightarrow> (regexp \<rightharpoonup> 'v RPCHandler) \<Rightarrow> regexp list \<Rightarrow> string
     \<Rightarrow> 'v RPCHandler option" where
  "rgxLoop matches tbl [] uri = None"
| "rgxLoop matches tbl (rgx # ks) uri =
     (case tbl rgx of
        None \<Rightarrow> rgxLoop matches tbl ks uri
      | Some handler \<Rightarrow> if matches rgx uri then Some handler else rgxLoop matches tbl ks uri)"

text \<open>Lines 197 to 207: the handler of a call, if there is one.\<close>

definition resolve :: "'v outside \<Rightarrow> regexp list \<Rightarrow> 'v WS \<Rightarrow> string \<Rightarrow> 'v RPCHandler option" where
  "resolve out ks server uri =
     (case rpcHandlers server uri of
        Some handler \<Rightarrow> Some handler
      | None \<Rightarrow> rgxLoop (MatchString out) (rpcRgxHandlers server) ks uri)"

definition handleRPCCall ::
  "'v outside \<Rightarrow> regexp list \<Rightarrow> 'v WS \<Rightarrow> 'v conn \<Rightarrow> 'v list \<Rightarrow> 'v WS" where
  "handleRPCCall out ks server c msg =
     (case parseWampMessage out msgCall msg of
        Inl e \<Rightarrow> server
      | Inr rpcMessage \<Rightarrow>
          (case resolve out ks server (URI rpcMessage) of
             Some handler \<Rightarrow>
               (case handler (id_conn c) (URI rpcMessage) (Args rpcMessage) of
                  (res, Some e) \<Rightarrow>
                    send server c
                      (createMessage msgCallError [ArgVal (CallID rpcMessage), createError e])
                | (res, None) \<Rightarrow>
                    send server c
                      (createMessage msgCallResult [ArgVal (CallID rpcMessage), ArgVal res]))
           | None \<Rightarrow>
               send server c
                 (createMessage msgCallError
                    [ArgVal (CallID rpcMessage), createError ErrRPCNotRegistered])))"

text \<open>Lines 236 to 253: the loop over the registered prefixes \<open>uris\<close> and the line after it.\<close>

fun subscribeLoop :: "'v WS \<Rightarrow> 'v conn \<Rightarrow> 'v wampMsg \<Rightarrow> string list \<Rightarrow> 'v WS" where
  "subscribeLoop server c subMessage [] =
     send server c
       (createMessage msgSubscribeError
          [ArgStr (URI subMessage), createError ErrSubURINotRegistered])"
| "subscribeLoop server c subMessage (uri # uris) =
     (case subHandlers server uri of
        None \<Rightarrow> subscribeLoop server c subMessage uris
      | Some handler \<Rightarrow>
          if prefix uri (URI subMessage) then
            if subHandler handler (id_conn c) (URI subMessage) (Args subMessage) then
              send
                (server\<lparr> subscribers := (subscribers server)
                   (URI subMessage \<mapsto>
                      (case subscribers server (URI subMessage) of
                         None \<Rightarrow> Map.empty
                       | Some members \<Rightarrow> members)(id_conn c \<mapsto> subscriberExists)) \<rparr>)
                c (createMessage msgSubscribed [ArgStr (URI subMessage)])
            else
              send server c
                (createMessage msgSubscribeError
                   [ArgStr (URI subMessage), createError ErrForbidden])
          else subscribeLoop server c subMessage uris)"

definition handleSubscribe ::
  "'v outside \<Rightarrow> string list \<Rightarrow> 'v WS \<Rightarrow> 'v conn \<Rightarrow> 'v list \<Rightarrow> 'v WS" where
  "handleSubscribe out uris server c msg =
     (case parseWampMessage out msgSubscribe msg of
        Inl e \<Rightarrow> server
      | Inr subMessage \<Rightarrow> subscribeLoop server c subMessage uris)"

text \<open>Lines 266 to 280: the loop over the topics \<open>uris\<close> and the line after it.\<close>

fun unsubscribeLoop :: "'v WS \<Rightarrow> 'v conn \<Rightarrow> 'v wampMsg \<Rightarrow> string list \<Rightarrow> 'v WS" where
  "unsubscribeLoop server c unsubMessage [] =
     send server c
       (createMessage msgUnSubscribeError
          [ArgStr (URI unsubMessage), createError ErrSubURINotRegistered])"
| "unsubscribeLoop server c unsubMessage (uri # uris) =
     (case subscribers server uri of
        None \<Rightarrow> unsubscribeLoop server c unsubMessage uris
      | Some members \<Rightarrow>
          if uri = URI unsubMessage then
            (case members (id_conn c) of
               Some b \<Rightarrow>
                 send
                   (server\<lparr> subscribers := (subscribers server)
                      (uri \<mapsto> members(id_conn c := None)) \<rparr>)
                   c (createMessage msgUnsubscribed [ArgStr (URI unsubMessage)])
             | None \<Rightarrow>
                 send server c
                   (createMessage msgUnSubscribeError
                      [ArgStr (URI unsubMessage), createError ErrNotSubscribes]))
          else unsubscribeLoop server c unsubMessage uris)"

definition handleUnSubscribe ::
  "'v outside \<Rightarrow> string list \<Rightarrow> 'v WS \<Rightarrow> 'v conn \<Rightarrow> 'v list \<Rightarrow> 'v WS" where
  "handleUnSubscribe out uris server c msg =
     (case parseWampMessage out msgUnsubscribe msg of
        Inl e \<Rightarrow> server
      | Inr unsubMessage \<Rightarrow> unsubscribeLoop server c unsubMessage uris)"

definition handleHeartbeat :: "'v WS \<Rightarrow> 'v conn \<Rightarrow> 'v list \<Rightarrow> string \<Rightarrow> 'v WS" where
  "handleHeartbeat server c msg data = send server c (Raw data)"

text \<open>
  The event of a publish frame is its first argument, or \<^verbatim>\<open>nil\<close>: \<open>nil\<close> is the value
  that stands for it.
\<close>

definition handlePublish ::
  "'v outside \<Rightarrow> 'v \<Rightarrow> string list \<Rightarrow> 'v WS \<Rightarrow> 'v conn \<Rightarrow> 'v list \<Rightarrow> 'v WS" where
  "handlePublish out nil ids server c msg =
     (case parseWampMessage out msgUnsubscribe msg of
        Inl e \<Rightarrow> server
      | Inr pubMessage \<Rightarrow>
          Publish ids server (URI pubMessage)
            (case Args pubMessage of [] \<Rightarrow> nil | event # rest \<Rightarrow> event))"

text \<open>The orders of the \<^verbatim>\<open>range\<close> loops that one operation may run.\<close>

record orders =
  rgxOrder :: "regexp list"
  prefixOrder :: "string list"
  topicOrder :: "string list"
  idOrder :: "string list"

text \<open>Lines 163 to 186: what \<^verbatim>\<open>receive\<close> does with one frame \<open>data\<close>.\<close>

definition dispatch :: "'v outside \<Rightarrow> 'v \<Rightarrow> orders \<Rightarrow> 'v WS \<Rightarrow> 'v conn \<Rightarrow> string \<Rightarrow> 'v WS" where
  "dispatch out nil os server c data =
     (case parseMessage out data of
        (t, msg, e) \<Rightarrow>
          (case t of
             msgCall \<Rightarrow> handleRPCCall out (rgxOrder os) server c msg
           | msgSubscribe \<Rightarrow> handleSubscribe out (prefixOrder os) server c msg
           | msgUnsubscribe \<Rightarrow> handleUnSubscribe out (topicOrder os) server c msg
           | msgPublish \<Rightarrow> handlePublish out nil (idOrder os) server c msg
           | msgHeartbeat \<Rightarrow> handleHeartbeat server c msg data
           | _ \<Rightarrow> server))"

text \<open>
  \<^verbatim>\<open>receive\<close> on the frames that arrive before the read fails, each with the orders of
  its loops.
\<close>

fun receive :: "'v outside \<Rightarrow> 'v \<Rightarrow> 'v WS \<Rightarrow> 'v conn \<Rightarrow> (orders \<times> string) list \<Rightarrow> 'v WS" where
  "receive out nil server c [] = server"
| "receive out nil server c ((os, data) # frames) =
     receive out nil (dispatch out nil os server c data) c frames"

definition WampHandler ::
  "'v outside \<Rightarrow> 'v \<Rightarrow> string \<Rightarrow> 'v WS \<Rightarrow> 'v \<Rightarrow> (orders \<times> string) list \<Rightarrow> string list \<Rightarrow> 'v WS" where
  "WampHandler out nil newUUIDv4 server ex frames uris =
     (case addConnection newUUIDv4 server ex of
        (c, server1) \<Rightarrow> deleteConnection uris (receive out nil server1 c frames) (id_conn c))"

subsection \<open>Operations\<close>

text \<open>
  What can happen to a server: a call of its registration interface or of
  \<^verbatim>\<open>Publish\<close>, a new connection, a frame received from a connection, the teardown of a
  connection.
\<close>

datatype 'v operation =
    OpRegisterRPC "'v uriArg" "'v RPCHandler"
  | OpRegisterSub string "'v SubHandler" "'v PubHandler option"
  | OpPublish string 'v
  | OpAdd string 'v
  | OpFrame "'v conn" string
  | OpDelete string

fun exec :: "'v outside \<Rightarrow> 'v \<Rightarrow> 'v WS \<Rightarrow> orders \<times> 'v operation \<Rightarrow> 'v WS" where
  "exec out nil server (os, OpRegisterRPC u fn) = snd (RegisterRPCHandler (rgxOrder os) server u fn)"
| "exec out nil server (os, OpRegisterSub uri fnSub fnPub) =
     snd (RegisterSubHandler server uri fnSub fnPub)"
| "exec out nil server (os, OpPublish uri event) = Publish (idOrder os) server uri event"
| "exec out nil server (os, OpAdd newUUIDv4 ex) = snd (addConnection newUUIDv4 server ex)"
| "exec out nil server (os, OpFrame c data) = dispatch out nil os server c data"
| "exec out nil server (os, OpDelete i) = deleteConnection (topicOrder os) server i"

definition run :: "'v outside \<Rightarrow> 'v \<Rightarrow> 'v WS \<Rightarrow> (orders \<times> 'v operation) list \<Rightarrow> 'v WS" where
  "run out nil server ops = foldl (exec out nil) server ops"

subsection \<open>Invariants\<close>

text \<open>
  \<open>keyed\<close>: every connection is stored under its own id, as \<^verbatim>\<open>addConnection\<close> stores it.
  \<open>gone i\<close>: the id \<open>i\<close> is in no map of the server. \<open>foreign i\<close>: an operation that is
  neither the arrival of a connection with the id \<open>i\<close> nor a frame received from it.
\<close>

definition keyed :: "'v WS \<Rightarrow> bool" where
  "keyed server = (\<forall>k c. connections server k = Some c \<longrightarrow> id_conn c = k)"

definition gone :: "string \<Rightarrow> 'v WS \<Rightarrow> bool" where
  "gone i server =
     (connections server i = None \<and>
      (\<forall>t members. subscribers server t = Some members \<longrightarrow> members i = None))"

fun foreign :: "string \<Rightarrow> 'v operation \<Rightarrow> bool" where
  "foreign i (OpAdd newUUIDv4 ex) = (newUUIDv4 \<noteq> i)"
| "foreign i (OpFrame c data) = (id_conn c \<noteq> i)"
| "foreign i op = True"

subsection \<open>A sample server\<close>

text \<open>
  Concrete data for running the model: values are strings, the first character of a
  frame is its kind and the rest its uri, and the only pattern that matches anything is
  \<^verbatim>\<open>^s\<close>.
\<close>

definition sampleOut :: "string outside" where
  "sampleOut =
     \<lparr> parseMessage = (\<lambda>data.
         case data of
           [] \<Rightarrow> (msgOther 0, [], Some (ErrOther ''empty''))
         | k # rest \<Rightarrow>
             if k = CHR ''C'' then (msgCall, [''1'', rest], None)
             else if k = CHR ''S'' then (msgSubscribe, [rest], None)
             else if k = CHR ''U'' then (msgUnsubscribe, [rest], None)
             else if k = CHR ''P'' then (msgPublish, [rest, ''goal''], None)
             else if k = CHR ''H'' then (msgHeartbeat, [], None)
             else (msgOther 0, [], Some (ErrOther ''kind''))),
       parseWampMessage = (\<lambda>t msg.
         case t of
           msgCall \<Rightarrow>
             (case msg of
                callID # uri # args \<Rightarrow> Inr \<lparr> CallID = callID, URI = uri, Args = args \<rparr>
              | _ \<Rightarrow> Inl (ErrOther ''short''))
         | _ \<Rightarrow>
             (case msg of
                uri # args \<Rightarrow> Inr \<lparr> CallID = [], URI = uri, Args = args \<rparr>
              | [] \<Rightarrow> Inl (ErrOther ''short''))),
       MatchString = (\<lambda>rgx uri. String rgx = ''^s'' \<and> prefix ''s'' uri) \<rparr>"

definition h1 :: "string RPCHandler" where
  "h1 = (\<lambda>connID uri args. (''one'', None))"

definition h2 :: "string RPCHandler" where
  "h2 = (\<lambda>connID uri args. ([], Some (ErrOther ''boom'')))"

definition admitAll :: "string subHandler" where
  "admitAll = \<lparr> subHandler = (\<lambda>connID uri args. True), pubHandler = None \<rparr>"

definition admitNone :: "string subHandler" where
  "admitNone = \<lparr> subHandler = (\<lambda>connID uri args. False), pubHandler = None \<rparr>"

definition c1 :: "string conn" where
  "c1 = \<lparr> id_conn = ''c1'', extra = ''guest'' \<rparr>"

definition c2 :: "string conn" where
  "c2 = \<lparr> id_conn = ''c2'', extra = ''member'' \<rparr>"

definition c3 :: "string conn" where
  "c3 = \<lparr> id_conn = ''c3'', extra = ''member'' \<rparr>"

text \<open>A filter that lets an event through to members only, and marks it.\<close>

definition membersOnly :: "string PubHandler" where
  "membersOnly = (\<lambda>uri event ex. (ex = ''member'', event @ ''!''))"

definition srv1 :: "string WS" where
  "srv1 =
     \<lparr> connections = [''c1'' \<mapsto> c1, ''c3'' \<mapsto> c3],
       rpcHandlers = [''sum'' \<mapsto> h1],
       rpcRgxHandlers = [Regexp 10 ''^s'' \<mapsto> h2],
       subHandlers = [''news.'' \<mapsto> admitAll, ''private.'' \<mapsto> admitNone],
       subscribers = [''news.sports'' \<mapsto> [''c1'' \<mapsto> True, ''c3'' \<mapsto> True]],
       sendChans = (\<lambda>i. []) \<rparr>"

definition noOrders :: orders where
  "noOrders = \<lparr> rgxOrder = [], prefixOrder = [], topicOrder = [], idOrder = [] \<rparr>"

section \<open>Properties\<close>

subsection \<open>Registration\<close>

lemma rgxRegistered_iff: "rgxRegistered ks rgx \<longleftrightarrow> (\<exists>k \<in> set ks. String k = String rgx)"
  by (induction ks) auto

text \<open>
  C9: with an argument that is neither a string nor a compiled pattern,
  \<^verbatim>\<open>RegisterRPCHandler\<close> returns \<^verbatim>\<open>nil\<close> and leaves the server as it was: neither table
  gets an entry.
\<close>

theorem RegisterRPCHandler_other_type:
  "RegisterRPCHandler ks server (UriOther v) fn = (None, server)"
  by (simp add: RegisterRPCHandler_def)

text \<open>
  C6: registering again an exact uri, a pattern whose source text is that of a registered
  pattern, or a subscription prefix returns the wrapped \<^verbatim>\<open>ErrHandlerAlreadyRegistered\<close>
  and leaves the server, and so the handler stored first, as it was.
\<close>

theorem register_duplicate_fails:
  "(rpcHandlers server uri = Some h \<longrightarrow>
      RegisterRPCHandler ks server (UriString uri) fn =
        (Some (Wrap ErrHandlerAlreadyRegistered ''when registering string rpcHandler''), server))
   \<and> (ranges ks (rpcRgxHandlers server) \<and> rpcRgxHandlers server k = Some h' \<and>
        String k = String rgx \<longrightarrow>
      RegisterRPCHandler ks server (UriRegexp rgx) fn =
        (Some (Wrap ErrHandlerAlreadyRegistered ''when registering rgx rpcHandler''), server))
   \<and> (subHandlers server p = Some sh \<longrightarrow>
      RegisterSubHandler server p fnSub fnPub =
        (Some (Wrap ErrHandlerAlreadyRegistered ''when registering subHandler''), server))"
proof (intro conjI impI)
  assume "rpcHandlers server uri = Some h"
  then show "RegisterRPCHandler ks server (UriString uri) fn =
        (Some (Wrap ErrHandlerAlreadyRegistered ''when registering string rpcHandler''), server)"
    by (simp add: RegisterRPCHandler_def)
next
  assume a: "ranges ks (rpcRgxHandlers server) \<and> rpcRgxHandlers server k = Some h' \<and>
        String k = String rgx"
  then have "k \<in> set ks"
    by (auto simp: ranges_def)
  with a have "rgxRegistered ks rgx"
    unfolding rgxRegistered_iff by blast
  then show "RegisterRPCHandler ks server (UriRegexp rgx) fn =
        (Some (Wrap ErrHandlerAlreadyRegistered ''when registering rgx rpcHandler''), server)"
    by (simp add: RegisterRPCHandler_def)
next
  assume "subHandlers server p = Some sh"
  then show "RegisterSubHandler server p fnSub fnPub =
        (Some (Wrap ErrHandlerAlreadyRegistered ''when registering subHandler''), server)"
    by (simp add: RegisterSubHandler_def)
qed

theorem register_duplicate_fails_witness:
  "RegisterRPCHandler [Regexp 10 ''^s''] srv1 (UriString ''sum'') h2 =
     (Some (Wrap ErrHandlerAlreadyRegistered ''when registering string rpcHandler''), srv1)
   \<and> rpcHandlers (snd (RegisterRPCHandler [Regexp 10 ''^s''] srv1 (UriString ''sum'') h2)) ''sum'' =
       Some h1
   \<and> RegisterRPCHandler [Regexp 10 ''^s''] srv1 (UriRegexp (Regexp 20 ''^s'')) h1 =
     (Some (Wrap ErrHandlerAlreadyRegistered ''when registering rgx rpcHandler''), srv1)
   \<and> RegisterSubHandler srv1 ''news.'' (\<lambda>connID uri args. False) None =
     (Some (Wrap ErrHandlerAlreadyRegistered ''when registering subHandler''), srv1)"
proof -
  have exact: "rpcHandlers srv1 ''sum'' = Some h1"
    by (simp add: srv1_def)
  have pattern: "ranges [Regexp 10 ''^s''] (rpcRgxHandlers srv1) \<and>
      rpcRgxHandlers srv1 (Regexp 10 ''^s'') = Some h2 \<and>
      String (Regexp 10 ''^s'') = String (Regexp 20 ''^s'')"
    by (simp add: srv1_def ranges_def)
  have topic: "subHandlers srv1 ''news.'' = Some admitAll"
    by (simp add: srv1_def)
  note dup = register_duplicate_fails [where server = srv1 and uri = "''sum''" and h = h1
      and ks = "[Regexp 10 ''^s'']" and fn = h2 and k = "Regexp 10 ''^s''" and h' = h2
      and rgx = "Regexp 20 ''^s''" and p = "''news.''" and sh = admitAll
      and fnSub = "\<lambda>connID uri args. False" and fnPub = None]
  note dup' = register_duplicate_fails [where server = srv1 and ks = "[Regexp 10 ''^s'']"
      and fn = h1 and k = "Regexp 10 ''^s''" and h' = h2 and rgx = "Regexp 20 ''^s''"]
  from dup dup' exact pattern topic show ?thesis
    by simp
qed

subsection \<open>Calls\<close>

lemma rgxLoop_first:
  "\<forall>k \<in> set pre. \<not> matches k uri \<Longrightarrow> tbl rgx = Some h \<Longrightarrow> matches rgx uri \<Longrightarrow>
     rgxLoop matches tbl (pre @ rgx # post) uri = Some h"
  by (induction pre) (auto split: option.splits)

lemma rgxLoop_none:
  "\<forall>k \<in> set ks. \<not> matches k uri \<Longrightarrow> rgxLoop matches tbl ks uri = None"
  by (induction ks) (auto split: option.splits)

text \<open>
  C4: a handler registered under the very uri of a call is the one resolved, and the one
  whose result is sent, whatever the patterns are. Only without such a handler are the
  patterns tried, in the order of the loop: the handler of the first pattern that matches
  is resolved, and none if no pattern matches.
\<close>

theorem exact_handler_first:
  "(rpcHandlers server uri = Some h \<longrightarrow> resolve out ks server uri = Some h)
   \<and> (rpcHandlers server uri = Some h \<and> parseWampMessage out msgCall msg = Inr m \<and>
        URI m = uri \<longrightarrow>
        handleRPCCall out ks server c msg =
          send server c
            (case h (id_conn c) uri (Args m) of
               (res, Some e) \<Rightarrow> createMessage msgCallError [ArgVal (CallID m), createError e]
             | (res, None) \<Rightarrow> createMessage msgCallResult [ArgVal (CallID m), ArgVal res]))
   \<and> (rpcHandlers server uri = None \<and> ks = pre @ rgx # post
        \<and> (\<forall>k \<in> set pre. \<not> MatchString out k uri)
        \<and> rpcRgxHandlers server rgx = Some h' \<and> MatchString out rgx uri \<longrightarrow>
        resolve out ks server uri = Some h')
   \<and> (rpcHandlers server uri = None \<and> (\<forall>k \<in> set ks. \<not> MatchString out k uri) \<longrightarrow>
        resolve out ks server uri = None)"
  by (auto simp: resolve_def handleRPCCall_def rgxLoop_first rgxLoop_none
      split: prod.splits option.splits)

theorem exact_handler_first_witness:
  "MatchString sampleOut (Regexp 10 ''^s'') ''sum''
   \<and> resolve sampleOut [Regexp 10 ''^s''] srv1 ''sum'' = Some h1
   \<and> handleRPCCall sampleOut [Regexp 10 ''^s''] srv1 c1 [''7'', ''sum''] =
       send srv1 c1 (createMessage msgCallResult [ArgVal ''7'', ArgVal ''one''])
   \<and> resolve sampleOut [Regexp 10 ''^s''] srv1 ''sub'' = Some h2
   \<and> resolve sampleOut [Regexp 10 ''^s''] srv1 ''mul'' = None"
proof -
  have m: "MatchString sampleOut (Regexp 10 ''^s'') ''sum''"
    by (simp add: sampleOut_def)
  have exact: "rpcHandlers srv1 ''sum'' = Some h1 \<and>
      parseWampMessage sampleOut msgCall [''7'', ''sum''] =
        Inr \<lparr> CallID = ''7'', URI = ''sum'', Args = [] \<rparr> \<and>
      URI \<lparr> CallID = ''7'', URI = ''sum'', Args = [] \<rparr> = ''sum''"
    by (simp add: srv1_def sampleOut_def)
  have first: "rpcHandlers srv1 ''sub'' = None \<and> [Regexp 10 ''^s''] = [] @ Regexp 10 ''^s'' # []
      \<and> (\<forall>k \<in> set []. \<not> MatchString sampleOut k ''sub'')
      \<and> rpcRgxHandlers srv1 (Regexp 10 ''^s'') = Some h2
      \<and> MatchString sampleOut (Regexp 10 ''^s'') ''sub''"
    by (simp add: srv1_def sampleOut_def)
  have nomatch: "rpcHandlers srv1 ''mul'' = None \<and>
      (\<forall>k \<in> set [Regexp 10 ''^s'']. \<not> MatchString sampleOut k ''mul'')"
    by (simp add: srv1_def sampleOut_def)
  note a = exact_handler_first [where server = srv1 and uri = "''sum''" and h = h1
      and out = sampleOut and ks = "[Regexp 10 ''^s'']" and msg = "[''7'', ''sum'']"
      and m = "\<lparr> CallID = ''7'', URI = ''sum'', Args = [] \<rparr>" and c = c1]
  note b = exact_handler_first [where server = srv1 and uri = "''sub''"
      and out = sampleOut and ks = "[Regexp 10 ''^s'']" and pre = "[]" and post = "[]"
      and rgx = "Regexp 10 ''^s''" and h' = h2]
  note c = exact_handler_first [where server = srv1 and uri = "''mul''"
      and out = sampleOut and ks = "[Regexp 10 ''^s'']"]
  from a exact have 1: "resolve sampleOut [Regexp 10 ''^s''] srv1 ''sum'' = Some h1"
    by blast
  from a exact have 2: "handleRPCCall sampleOut [Regexp 10 ''^s''] srv1 c1 [''7'', ''sum''] =
       send srv1 c1 (createMessage msgCallResult [ArgVal ''7'', ArgVal ''one''])"
    by (simp add: h1_def)
  from b first have 3: "resolve sampleOut [Regexp 10 ''^s''] srv1 ''sub'' = Some h2"
    by blast
  from c nomatch have 4: "resolve sampleOut [Regexp 10 ''^s''] srv1 ''mul'' = None"
    by blast
  from m 1 2 3 4 show ?thesis
    by blast
qed

text \<open>
  C5: a call frame that \<^verbatim>\<open>parseWampMessage\<close> accepts puts one item on the channel of
  the caller and changes nothing else. The item carries the call id of the frame: a
  call result with the result of the resolved handler when that returns no error, a
  call error with its error when it returns one, and a call error with
  \<^verbatim>\<open>ErrRPCNotRegistered\<close> when no handler is resolved, which is the case when no exact
  uri and no pattern matches.
\<close>

theorem call_one_response:
  assumes "parseWampMessage out msgCall msg = Inr m"
  shows "handleRPCCall out ks server c msg =
     server\<lparr> sendChans := (sendChans server)(id_conn c := sendChans server (id_conn c) @
       [case resolve out ks server (URI m) of
          None \<Rightarrow> createMessage msgCallError [ArgVal (CallID m), createError ErrRPCNotRegistered]
        | Some handler \<Rightarrow>
            (case handler (id_conn c) (URI m) (Args m) of
               (res, Some e) \<Rightarrow> createMessage msgCallError [ArgVal (CallID m), createError e]
             | (res, None) \<Rightarrow> createMessage msgCallResult [ArgVal (CallID m), ArgVal res])]) \<rparr>
   \<and> (rpcHandlers server (URI m) = None \<and> (\<forall>k \<in> set ks. \<not> MatchString out k (URI m)) \<longrightarrow>
        resolve out ks server (URI m) = None)"
  using assms
  by (simp add: handleRPCCall_def send_def resolve_def rgxLoop_none
      split: option.splits prod.splits)

theorem call_one_response_witness:
  "handleRPCCall sampleOut [Regexp 10 ''^s''] srv1 c1 [''7'', ''sum''] =
     srv1\<lparr> sendChans := (sendChans srv1)
       (''c1'' := [createMessage msgCallResult [ArgVal ''7'', ArgVal ''one'']]) \<rparr>
   \<and> handleRPCCall sampleOut [Regexp 10 ''^s''] srv1 c1 [''8'', ''sub''] =
     srv1\<lparr> sendChans := (sendChans srv1)
       (''c1'' := [createMessage msgCallError [ArgVal ''8'', createError (ErrOther ''boom'')]]) \<rparr>
   \<and> handleRPCCall sampleOut [Regexp 10 ''^s''] srv1 c1 [''9'', ''mul''] =
     srv1\<lparr> sendChans := (sendChans srv1)
       (''c1'' := [createMessage msgCallError [ArgVal ''9'', createError ErrRPCNotRegistered]]) \<rparr>"
proof -
  have p: "parseWampMessage sampleOut msgCall [x, u] = Inr \<lparr> CallID = x, URI = u, Args = [] \<rparr>"
    for x u
    by (simp add: sampleOut_def)
  have r: "resolve sampleOut [Regexp 10 ''^s''] srv1 ''sum'' = Some h1"
    "resolve sampleOut [Regexp 10 ''^s''] srv1 ''sub'' = Some h2"
    "resolve sampleOut [Regexp 10 ''^s''] srv1 ''mul'' = None"
    by (simp_all add: resolve_def srv1_def sampleOut_def)
  have s: "sendChans srv1 ''c1'' = []" "id_conn c1 = ''c1''"
    by (simp_all add: srv1_def c1_def)
  from call_one_response [OF p [of "''7''" "''sum''"], where ks = "[Regexp 10 ''^s'']"
      and server = srv1 and c = c1]
    call_one_response [OF p [of "''8''" "''sub''"], where ks = "[Regexp 10 ''^s'']"
      and server = srv1 and c = c1]
    call_one_response [OF p [of "''9''" "''mul''"], where ks = "[Regexp 10 ''^s'']"
      and server = srv1 and c = c1]
  show ?thesis
    by (simp add: r s h1_def h2_def)
qed

subsection \<open>Subscribe and unsubscribe\<close>

lemma send_fields [simp]:
  "connections (send server c msg) = connections server"
  "rpcHandlers (send server c msg) = rpcHandlers server"
  "rpcRgxHandlers (send server c msg) = rpcRgxHandlers server"
  "subHandlers (send server c msg) = subHandlers server"
  "subscribers (send server c msg) = subscribers server"
  by (simp_all add: send_def)

lemma send_sendChans:
  "sendChans (send server c msg) i =
     (if i = id_conn c then sendChans server i @ [msg] else sendChans server i)"
  by (simp add: send_def)

lemma subscribeLoop_skip:
  "\<forall>q \<in> set pre. \<not> prefix q (URI m) \<Longrightarrow>
     subscribeLoop server c m (pre @ uris) = subscribeLoop server c m uris"
  by (induction pre) (auto split: option.splits)

lemma subscribeLoop_none:
  "\<forall>q \<in> set uris. subHandlers server q \<noteq> None \<longrightarrow> \<not> prefix q (URI m) \<Longrightarrow>
     subscribeLoop server c m uris =
       send server c
         (createMessage msgSubscribeError [ArgStr (URI m), createError ErrSubURINotRegistered])"
  by (induction uris) (auto split: option.splits)

lemma first_match:
  "\<exists>q \<in> set uris. P q \<Longrightarrow> \<exists>pre p post. uris = pre @ p # post \<and> (\<forall>q \<in> set pre. \<not> P q) \<and> P p"
  using split_list_first_prop [of uris P] by blast

text \<open>
  C2: for a subscribe frame that \<^verbatim>\<open>parseWampMessage\<close> accepts, with topic \<open>URI m\<close>.
  If no registered prefix is a prefix of the topic, one item is put on the channel of
  the connection, a subscribe error with \<^verbatim>\<open>ErrSubURINotRegistered\<close>, and nothing else
  changes: the subscriber sets are as before. Otherwise the loop reaches a first
  registered prefix \<open>p\<close> of the topic, and the admit predicate of \<open>p\<close> decides. When it
  holds, the id of the connection is put into the set of the topic (an empty set being
  made when there is none) and the one item put on the channel is \<^verbatim>\<open>msgSubscribed\<close>.
  When it does not, the one item put on the channel is a subscribe error with
  \<^verbatim>\<open>ErrForbidden\<close> and the subscriber sets are as before.
\<close>

theorem subscribe_outcomes:
  assumes "parseWampMessage out msgSubscribe msg = Inr m"
  shows "(ranges uris (subHandlers server) \<and>
        (\<forall>q \<in> dom (subHandlers server). \<not> prefix q (URI m)) \<longrightarrow>
       handleSubscribe out uris server c msg =
         server\<lparr> sendChans := (sendChans server)(id_conn c := sendChans server (id_conn c) @
           [createMessage msgSubscribeError
              [ArgStr (URI m), createError ErrSubURINotRegistered]]) \<rparr>
       \<and> subscribers (handleSubscribe out uris server c msg) = subscribers server)
   \<and> (ranges uris (subHandlers server) \<and>
        (\<exists>q \<in> dom (subHandlers server). prefix q (URI m)) \<longrightarrow>
       (\<exists>pre p post. uris = pre @ p # post \<and> (\<forall>q \<in> set pre. \<not> prefix q (URI m)) \<and>
          prefix p (URI m) \<and> subHandlers server p \<noteq> None))
   \<and> (uris = pre @ p # post \<and> (\<forall>q \<in> set pre. \<not> prefix q (URI m)) \<and> prefix p (URI m)
        \<and> subHandlers server p = Some h \<longrightarrow>
       handleSubscribe out uris server c msg =
         (if subHandler h (id_conn c) (URI m) (Args m) then
            server\<lparr> subscribers := (subscribers server)
                (URI m \<mapsto>
                   (case subscribers server (URI m) of
                      None \<Rightarrow> Map.empty
                    | Some members \<Rightarrow> members)(id_conn c \<mapsto> subscriberExists)),
              sendChans := (sendChans server)(id_conn c := sendChans server (id_conn c) @
                [createMessage msgSubscribed [ArgStr (URI m)]]) \<rparr>
          else
            server\<lparr> sendChans := (sendChans server)(id_conn c := sendChans server (id_conn c) @
              [createMessage msgSubscribeError [ArgStr (URI m), createError ErrForbidden]]) \<rparr>)
       \<and> (subHandler h (id_conn c) (URI m) (Args m) \<longrightarrow>
            (\<exists>members. subscribers (handleSubscribe out uris server c msg) (URI m) = Some members \<and>
               members (id_conn c) = Some subscriberExists))
       \<and> (\<not> subHandler h (id_conn c) (URI m) (Args m) \<longrightarrow>
            subscribers (handleSubscribe out uris server c msg) = subscribers server))"
proof (intro conjI impI)
  assume a: "ranges uris (subHandlers server) \<and>
      (\<forall>q \<in> dom (subHandlers server). \<not> prefix q (URI m))"
  then have "\<forall>q \<in> set uris. subHandlers server q \<noteq> None \<longrightarrow> \<not> prefix q (URI m)"
    by (auto simp: ranges_def)
  then show none: "handleSubscribe out uris server c msg =
         server\<lparr> sendChans := (sendChans server)(id_conn c := sendChans server (id_conn c) @
           [createMessage msgSubscribeError
              [ArgStr (URI m), createError ErrSubURINotRegistered]]) \<rparr>"
    using assms by (simp add: handleSubscribe_def subscribeLoop_none send_def)
  show "subscribers (handleSubscribe out uris server c msg) = subscribers server"
    unfolding none by simp
next
  assume r: "ranges uris (subHandlers server) \<and>
      (\<exists>q \<in> dom (subHandlers server). prefix q (URI m))"
  then have "\<exists>q \<in> set uris. prefix q (URI m) \<and> subHandlers server q \<noteq> None"
    by (auto simp: ranges_def)
  from first_match [OF this] obtain pre p post where u: "uris = pre @ p # post"
    and "\<forall>q \<in> set pre. \<not> (prefix q (URI m) \<and> subHandlers server q \<noteq> None)"
    and "prefix p (URI m) \<and> subHandlers server p \<noteq> None"
    by blast
  moreover have "set pre \<subseteq> dom (subHandlers server)"
    using r u by (auto simp: ranges_def)
  ultimately show "\<exists>pre p post. uris = pre @ p # post \<and>
      (\<forall>q \<in> set pre. \<not> prefix q (URI m)) \<and> prefix p (URI m) \<and> subHandlers server p \<noteq> None"
    by blast
next
  assume a: "uris = pre @ p # post \<and> (\<forall>q \<in> set pre. \<not> prefix q (URI m)) \<and> prefix p (URI m)
        \<and> subHandlers server p = Some h"
  then have "subscribeLoop server c m uris = subscribeLoop server c m (p # post)"
    by (simp add: subscribeLoop_skip)
  with a assms show first: "handleSubscribe out uris server c msg =
         (if subHandler h (id_conn c) (URI m) (Args m) then
            server\<lparr> subscribers := (subscribers server)
                (URI m \<mapsto>
                   (case subscribers server (URI m) of
                      None \<Rightarrow> Map.empty
                    | Some members \<Rightarrow> members)(id_conn c \<mapsto> subscriberExists)),
              sendChans := (sendChans server)(id_conn c := sendChans server (id_conn c) @
                [createMessage msgSubscribed [ArgStr (URI m)]]) \<rparr>
          else
            server\<lparr> sendChans := (sendChans server)(id_conn c := sendChans server (id_conn c) @
              [createMessage msgSubscribeError [ArgStr (URI m), createError ErrForbidden]]) \<rparr>)"
    by (simp add: handleSubscribe_def send_def)
  {
    assume "subHandler h (id_conn c) (URI m) (Args m)"
    then show "\<exists>members. subscribers (handleSubscribe out uris server c msg) (URI m) = Some members \<and>
        members (id_conn c) = Some subscriberExists"
      unfolding first by simp
  }
  assume "\<not> subHandler h (id_conn c) (URI m) (Args m)"
  then show "subscribers (handleSubscribe out uris server c msg) = subscribers server"
    unfolding first by simp
qed

theorem subscribe_outcomes_witness:
  "sendChans srv1 ''c2'' = []
   \<and> handleSubscribe sampleOut [''private.'', ''news.''] srv1 c2 [''sports.live''] =
     srv1\<lparr> sendChans := (sendChans srv1)(''c2'' :=
       [createMessage msgSubscribeError
          [ArgStr ''sports.live'', createError ErrSubURINotRegistered]]) \<rparr>
   \<and> handleSubscribe sampleOut [''private.'', ''news.''] srv1 c2 [''news.chess''] =
     srv1\<lparr> subscribers := (subscribers srv1)(''news.chess'' \<mapsto> [''c2'' \<mapsto> True]),
           sendChans := (sendChans srv1)(''c2'' :=
             [createMessage msgSubscribed [ArgStr ''news.chess'']]) \<rparr>
   \<and> handleSubscribe sampleOut [''private.'', ''news.''] srv1 c2 [''news.sports''] =
     srv1\<lparr> subscribers := (subscribers srv1)
             (''news.sports'' \<mapsto> [''c1'' \<mapsto> True, ''c3'' \<mapsto> True, ''c2'' \<mapsto> True]),
           sendChans := (sendChans srv1)(''c2'' :=
             [createMessage msgSubscribed [ArgStr ''news.sports'']]) \<rparr>
   \<and> handleSubscribe sampleOut [''private.'', ''news.''] srv1 c2 [''private.x''] =
     srv1\<lparr> sendChans := (sendChans srv1)(''c2'' :=
       [createMessage msgSubscribeError [ArgStr ''private.x'', createError ErrForbidden]]) \<rparr>
   \<and> sendChans (handleSubscribe sampleOut [''private.'', ''news.''] srv1 c2 [''private.x''])
        ''c2'' =
       [createMessage msgSubscribeError [ArgStr ''private.x'', createError ErrForbidden]]"
proof -
  have p: "parseWampMessage sampleOut msgSubscribe [u] = Inr \<lparr> CallID = [], URI = u, Args = [] \<rparr>"
    for u
    by (simp add: sampleOut_def)
  have r: "ranges [''private.'', ''news.''] (subHandlers srv1)"
    by (auto simp: ranges_def srv1_def)
  have d: "dom (subHandlers srv1) = {''private.'', ''news.''}"
    by (auto simp: srv1_def)
  have hs: "subHandlers srv1 ''news.'' = Some admitAll" "subHandlers srv1 ''private.'' = Some admitNone"
    by (simp_all add: srv1_def)
  have subs: "subscribers srv1 ''news.chess'' = None"
    "subscribers srv1 ''news.sports'' = Some [''c1'' \<mapsto> True, ''c3'' \<mapsto> True]"
    by (simp_all add: srv1_def)
  have ch: "sendChans srv1 ''c2'' = []" "id_conn c2 = ''c2''"
    by (simp_all add: srv1_def c2_def)
  note none = subscribe_outcomes [OF p [of "''sports.live''"], where uris = "[''private.'', ''news.'']"
      and server = srv1 and c = c2]
  note chess = subscribe_outcomes [OF p [of "''news.chess''"], where uris = "[''private.'', ''news.'']"
      and server = srv1 and c = c2 and pre = "[''private.'']" and p = "''news.''" and post = "[]"
      and h = admitAll]
  note sports = subscribe_outcomes [OF p [of "''news.sports''"], where uris = "[''private.'', ''news.'']"
      and server = srv1 and c = c2 and pre = "[''private.'']" and p = "''news.''" and post = "[]"
      and h = admitAll]
  note forbidden = subscribe_outcomes [OF p [of "''private.x''"], where uris = "[''private.'', ''news.'']"
      and server = srv1 and c = c2 and pre = "[]" and p = "''private.''" and post = "[''news.'']"
      and h = admitNone]
  from none r d have 1: "handleSubscribe sampleOut [''private.'', ''news.''] srv1 c2 [''sports.live''] =
     srv1\<lparr> sendChans := (sendChans srv1)(''c2'' :=
       [createMessage msgSubscribeError
          [ArgStr ''sports.live'', createError ErrSubURINotRegistered]]) \<rparr>"
    by (simp add: ch)
  from chess hs subs have 2: "handleSubscribe sampleOut [''private.'', ''news.''] srv1 c2 [''news.chess''] =
     srv1\<lparr> subscribers := (subscribers srv1)(''news.chess'' \<mapsto> [''c2'' \<mapsto> True]),
           sendChans := (sendChans srv1)(''c2'' :=
             [createMessage msgSubscribed [ArgStr ''news.chess'']]) \<rparr>"
    by (simp add: admitAll_def ch subscriberExists_def)
  from sports hs subs have 3: "handleSubscribe sampleOut [''private.'', ''news.''] srv1 c2 [''news.sports''] =
     srv1\<lparr> subscribers := (subscribers srv1)
             (''news.sports'' \<mapsto> [''c1'' \<mapsto> True, ''c3'' \<mapsto> True, ''c2'' \<mapsto> True]),
           sendChans := (sendChans srv1)(''c2'' :=
             [createMessage msgSubscribed [ArgStr ''news.sports'']]) \<rparr>"
    by (simp add: admitAll_def ch subscriberExists_def)
  from forbidden hs have 4: "handleSubscribe sampleOut [''private.'', ''news.''] srv1 c2 [''private.x''] =
     srv1\<lparr> sendChans := (sendChans srv1)(''c2'' :=
       [createMessage msgSubscribeError [ArgStr ''private.x'', createError ErrForbidden]]) \<rparr>"
    by (simp add: admitNone_def ch)
  have 5: "sendChans (handleSubscribe sampleOut [''private.'', ''news.''] srv1 c2 [''private.x''])
        ''c2'' =
       [createMessage msgSubscribeError [ArgStr ''private.x'', createError ErrForbidden]]"
    unfolding 4 by simp
  from ch 1 2 3 4 5 show ?thesis
    by blast
qed

lemma unsubscribeLoop_absent:
  "subscribers server (URI m) = None \<Longrightarrow>
     unsubscribeLoop server c m uris =
       send server c
         (createMessage msgUnSubscribeError [ArgStr (URI m), createError ErrSubURINotRegistered])"
  by (induction uris) (auto split: option.splits)

lemma unsubscribeLoop_present:
  "subscribers server (URI m) = Some members \<Longrightarrow> URI m \<in> set uris \<Longrightarrow>
     unsubscribeLoop server c m uris =
       (case members (id_conn c) of
          Some b \<Rightarrow>
            send (server\<lparr> subscribers := (subscribers server)(URI m \<mapsto> members(id_conn c := None)) \<rparr>)
              c (createMessage msgUnsubscribed [ArgStr (URI m)])
        | None \<Rightarrow>
            send server c
              (createMessage msgUnSubscribeError [ArgStr (URI m), createError ErrNotSubscribes]))"
  by (induction uris) (auto split: option.splits)

lemma send_inject: "send server c a = send server c b \<Longrightarrow> a = b"
  by (drule arg_cong [where f = "\<lambda>s. sendChans s (id_conn c)"]) (simp add: send_def)

text \<open>
  C3: for an unsubscribe frame that \<^verbatim>\<open>parseWampMessage\<close> accepts, with topic \<open>URI m\<close>.
  With a subscriber set for the topic that holds the id of the connection, the id is
  taken out of that set and the answer is \<^verbatim>\<open>msgUnsubscribed\<close>. With a set that does not
  hold it, the answer is an unsubscribe error with \<^verbatim>\<open>ErrNotSubscribes\<close>; with no set, an
  unsubscribe error with \<^verbatim>\<open>ErrSubURINotRegistered\<close>; in both the sets are as before, and
  the two answers differ.
\<close>

theorem unsubscribe_outcomes:
  assumes "parseWampMessage out msgUnsubscribe msg = Inr m"
    and "ranges uris (subscribers server)"
  shows "handleUnSubscribe out uris server c msg =
     (case subscribers server (URI m) of
        None \<Rightarrow>
          send server c
            (createMessage msgUnSubscribeError [ArgStr (URI m), createError ErrSubURINotRegistered])
      | Some members \<Rightarrow>
          (case members (id_conn c) of
             Some b \<Rightarrow>
               send (server\<lparr> subscribers := (subscribers server)
                       (URI m \<mapsto> members(id_conn c := None)) \<rparr>)
                 c (createMessage msgUnsubscribed [ArgStr (URI m)])
           | None \<Rightarrow>
               send server c
                 (createMessage msgUnSubscribeError [ArgStr (URI m), createError ErrNotSubscribes])))
   \<and> send server c
         (createMessage msgUnSubscribeError [ArgStr (URI m), createError ErrNotSubscribes]) \<noteq>
       send server c
         (createMessage msgUnSubscribeError [ArgStr (URI m), createError ErrSubURINotRegistered])"
proof -
  have differ: "send server c
         (createMessage msgUnSubscribeError [ArgStr (URI m), createError ErrNotSubscribes]) \<noteq>
       send server c
         (createMessage msgUnSubscribeError [ArgStr (URI m), createError ErrSubURINotRegistered])"
    by (auto dest: send_inject simp: createMessage_def createError_def)
  show ?thesis
  proof (cases "subscribers server (URI m)")
    case None
    with assms differ show ?thesis
      by (simp add: handleUnSubscribe_def unsubscribeLoop_absent)
  next
    case (Some members)
    with assms have "URI m \<in> set uris"
      by (auto simp: ranges_def)
    with Some assms differ show ?thesis
      by (simp add: handleUnSubscribe_def unsubscribeLoop_present)
  qed
qed

theorem unsubscribe_outcomes_witness:
  "handleUnSubscribe sampleOut [''news.sports''] srv1 c1 [''news.sports''] =
     send (srv1\<lparr> subscribers := (subscribers srv1)(''news.sports'' \<mapsto> [''c3'' \<mapsto> True]) \<rparr>) c1
       (createMessage msgUnsubscribed [ArgStr ''news.sports''])
   \<and> handleUnSubscribe sampleOut [''news.sports''] srv1 c2 [''news.sports''] =
     send srv1 c2
       (createMessage msgUnSubscribeError [ArgStr ''news.sports'', createError ErrNotSubscribes])
   \<and> handleUnSubscribe sampleOut [''news.sports''] srv1 c2 [''news.chess''] =
     send srv1 c2
       (createMessage msgUnSubscribeError [ArgStr ''news.chess'', createError ErrSubURINotRegistered])"
proof -
  have p: "parseWampMessage sampleOut msgUnsubscribe [u] = Inr \<lparr> CallID = [], URI = u, Args = [] \<rparr>"
    for u
    by (simp add: sampleOut_def)
  have r: "ranges [''news.sports''] (subscribers srv1)"
    by (simp add: ranges_def srv1_def)
  have subs: "subscribers srv1 ''news.chess'' = None"
    "subscribers srv1 ''news.sports'' = Some [''c1'' \<mapsto> True, ''c3'' \<mapsto> True]"
    by (simp_all add: srv1_def)
  have upd: "[''c1'' \<mapsto> True, ''c3'' \<mapsto> True](''c1'' := None) = [''c3'' \<mapsto> True]"
    by (rule ext) simp
  from unsubscribe_outcomes [OF p [of "''news.sports''"] r, of c1]
  have 1: "handleUnSubscribe sampleOut [''news.sports''] srv1 c1 [''news.sports''] =
     send (srv1\<lparr> subscribers := (subscribers srv1)(''news.sports'' \<mapsto> [''c3'' \<mapsto> True]) \<rparr>) c1
       (createMessage msgUnsubscribed [ArgStr ''news.sports''])"
    by (simp add: subs c1_def upd)
  from unsubscribe_outcomes [OF p [of "''news.sports''"] r, of c2]
  have 2: "handleUnSubscribe sampleOut [''news.sports''] srv1 c2 [''news.sports''] =
     send srv1 c2
       (createMessage msgUnSubscribeError [ArgStr ''news.sports'', createError ErrNotSubscribes])"
    by (simp add: subs c2_def)
  from unsubscribe_outcomes [OF p [of "''news.chess''"] r, of c2]
  have 3: "handleUnSubscribe sampleOut [''news.sports''] srv1 c2 [''news.chess''] =
     send srv1 c2
       (createMessage msgUnSubscribeError [ArgStr ''news.chess'', createError ErrSubURINotRegistered])"
    by (simp add: subs)
  from 1 2 3 show ?thesis
    by blast
qed

subsection \<open>Publish\<close>

lemma deliver_connections [simp]:
  "connections (deliver server ph uri event ids) = connections server"
  by (induction ids arbitrary: server) (auto simp: getConnection_def split: option.splits prod.splits)

lemma deliver_subscribers [simp]:
  "subscribers (deliver server ph uri event ids) = subscribers server"
  by (induction ids arbitrary: server) (auto simp: getConnection_def split: option.splits prod.splits)

lemma deliver_step:
  "deliver server ph uri event (i # ids) =
     deliver
       (case connections server i of
          None \<Rightarrow> server
        | Some c \<Rightarrow>
            (case ph of
               None \<Rightarrow> send server c (createMessage msgEvent [ArgStr uri, ArgVal event])
             | Some f \<Rightarrow>
                 if fst (f uri event (extra c))
                 then send server c
                   (createMessage msgEvent [ArgStr uri, ArgVal (snd (f uri event (extra c)))])
                 else server))
       ph uri event ids"
  by (simp add: getConnection_def split: option.splits prod.splits)

lemma Publish_deliver:
  "subscribers server uri = Some members \<Longrightarrow> ranges ids members \<Longrightarrow>
     Publish ids server uri event =
       deliver server
         (case subHandlers server uri of Some handler \<Rightarrow> pubHandler handler | None \<Rightarrow> None)
         uri event ids"
  by (auto simp: Publish_def snapshot_def ranges_def)

lemma deliver_each:
  assumes "keyed server" and "distinct ids"
  shows "sendChans (deliver server ph uri event ids) i =
     (if i \<in> set ids then
        (case connections server i of
           None \<Rightarrow> sendChans server i
         | Some c \<Rightarrow>
             (case ph of
                None \<Rightarrow> sendChans server i @ [createMessage msgEvent [ArgStr uri, ArgVal event]]
              | Some f \<Rightarrow>
                  (case f uri event (extra c) of
                     (allow, modifiedEvent) \<Rightarrow>
                       if allow
                       then sendChans server i @
                         [createMessage msgEvent [ArgStr uri, ArgVal modifiedEvent]]
                       else sendChans server i)))
      else sendChans server i)"
  using assms
proof (induction ids arbitrary: server)
  case Nil
  then show ?case by simp
next
  case (Cons j ids)
  let ?next = "case connections server j of
          None \<Rightarrow> server
        | Some c \<Rightarrow>
            (case ph of
               None \<Rightarrow> send server c (createMessage msgEvent [ArgStr uri, ArgVal event])
             | Some f \<Rightarrow>
                 if fst (f uri event (extra c))
                 then send server c
                   (createMessage msgEvent [ArgStr uri, ArgVal (snd (f uri event (extra c)))])
                 else server)"
  have conn: "connections ?next = connections server"
    by (simp split: option.splits)
  then have k: "keyed ?next"
    using Cons.prems(1) by (simp add: keyed_def)
  have d: "distinct ids" and nj: "j \<notin> set ids"
    using Cons.prems(2) by simp_all
  have other: "sendChans ?next i = sendChans server i" if "i \<noteq> j"
    using that Cons.prems(1) by (auto simp: keyed_def send_sendChans split: option.splits)
  have this_one: "sendChans ?next j =
        (case connections server j of
           None \<Rightarrow> sendChans server j
         | Some c \<Rightarrow>
             (case ph of
                None \<Rightarrow> sendChans server j @ [createMessage msgEvent [ArgStr uri, ArgVal event]]
              | Some f \<Rightarrow>
                  (case f uri event (extra c) of
                     (allow, modifiedEvent) \<Rightarrow>
                       if allow
                       then sendChans server j @
                         [createMessage msgEvent [ArgStr uri, ArgVal modifiedEvent]]
                       else sendChans server j)))"
    using Cons.prems(1) by (auto simp: keyed_def send_sendChans split: option.splits prod.splits)
  have step: "deliver server ph uri event (j # ids) = deliver ?next ph uri event ids"
    by (rule deliver_step)
  show ?case
  proof (cases "i = j")
    case True
    from nj have "sendChans (deliver ?next ph uri event ids) j = sendChans ?next j"
      using Cons.IH [OF k d, unfolded True] by simp
    with this_one show ?thesis
      unfolding step True by simp
  next
    case False
    with other have eq: "sendChans ?next i = sendChans server i"
      by simp
    from False show ?thesis
      unfolding step Cons.IH [OF k d] conn eq by simp
  qed
qed

text \<open>
  C1: the loop of \<^verbatim>\<open>Publish\<close> over the copied ids treats each id on its own. What the
  channel of an id \<open>i\<close> holds after the loop depends on \<open>i\<close> alone: an id of the copy
  without a connection gets nothing, an id whose connection the filter refuses gets
  nothing, and every other id of the copy gets one event message, with the payload the
  filter returned or, without a filter, the event itself. Ids outside the copy get
  nothing. The server of the loop need not be the one the ids were copied from; when it
  is, \<^verbatim>\<open>Publish\<close> is that loop with the filter registered under the very topic.
\<close>

theorem publish_fanout_independent:
  assumes "keyed server" and "distinct ids"
  shows "sendChans (deliver server ph uri event ids) i =
     (if i \<in> set ids then
        (case connections server i of
           None \<Rightarrow> sendChans server i
         | Some c \<Rightarrow>
             (case ph of
                None \<Rightarrow> sendChans server i @ [createMessage msgEvent [ArgStr uri, ArgVal event]]
              | Some f \<Rightarrow>
                  (case f uri event (extra c) of
                     (allow, modifiedEvent) \<Rightarrow>
                       if allow
                       then sendChans server i @
                         [createMessage msgEvent [ArgStr uri, ArgVal modifiedEvent]]
                       else sendChans server i)))
      else sendChans server i)
   \<and> (\<forall>members. subscribers server uri = Some members \<and> ranges ids members \<longrightarrow>
        Publish ids server uri event =
          deliver server
            (case subHandlers server uri of Some handler \<Rightarrow> pubHandler handler | None \<Rightarrow> None)
            uri event ids)"
proof (intro conjI allI impI)
  show "sendChans (deliver server ph uri event ids) i =
     (if i \<in> set ids then
        (case connections server i of
           None \<Rightarrow> sendChans server i
         | Some c \<Rightarrow>
             (case ph of
                None \<Rightarrow> sendChans server i @ [createMessage msgEvent [ArgStr uri, ArgVal event]]
              | Some f \<Rightarrow>
                  (case f uri event (extra c) of
                     (allow, modifiedEvent) \<Rightarrow>
                       if allow
                       then sendChans server i @
                         [createMessage msgEvent [ArgStr uri, ArgVal modifiedEvent]]
                       else sendChans server i)))
      else sendChans server i)"
    by (rule deliver_each [OF assms])
next
  fix members
  assume "subscribers server uri = Some members \<and> ranges ids members"
  then show "Publish ids server uri event =
          deliver server
            (case subHandlers server uri of Some handler \<Rightarrow> pubHandler handler | None \<Rightarrow> None)
            uri event ids"
    by (simp add: Publish_deliver)
qed

theorem publish_fanout_independent_witness:
  "keyed srv1 \<and> distinct [''c2'', ''c1'', ''c3'']
   \<and> connections srv1 ''c2'' = None
   \<and> fst (membersOnly ''news.sports'' ''goal'' (extra c1)) = False
   \<and> sendChans (deliver srv1 (Some membersOnly) ''news.sports'' ''goal'' [''c2'', ''c1'', ''c3''])
       ''c1'' = []
   \<and> sendChans (deliver srv1 (Some membersOnly) ''news.sports'' ''goal'' [''c2'', ''c1'', ''c3''])
       ''c2'' = []
   \<and> sendChans (deliver srv1 (Some membersOnly) ''news.sports'' ''goal'' [''c2'', ''c1'', ''c3''])
       ''c3'' = [createMessage msgEvent [ArgStr ''news.sports'', ArgVal ''goal!'']]"
proof -
  have k: "keyed srv1"
    by (simp add: keyed_def srv1_def c1_def c3_def)
  have d: "distinct [''c2'', ''c1'', ''c3'']"
    by simp
  have conns: "connections srv1 ''c1'' = Some c1" "connections srv1 ''c2'' = None"
    "connections srv1 ''c3'' = Some c3" "sendChans srv1 = (\<lambda>i. [])"
    by (simp_all add: srv1_def)
  have f: "fst (membersOnly ''news.sports'' ''goal'' (extra c1)) = False"
    by (simp add: membersOnly_def c1_def)
  note fan = publish_fanout_independent [OF k d, where ph = "Some membersOnly"
      and uri = "''news.sports''" and event = "''goal''"]
  from fan [where i = "''c1''"] fan [where i = "''c2''"] fan [where i = "''c3''"] k d f
  show ?thesis
    by (simp add: conns membersOnly_def c1_def c3_def)
qed

subsection \<open>What the operations keep\<close>

lemma purge_apply:
  "purge i uris subs t =
     (if t \<in> set uris then map_option (\<lambda>members. members(i := None)) (subs t) else subs t)"
  by (induction uris arbitrary: subs) (auto split: option.splits)

lemma deliver_absent:
  "keyed server \<Longrightarrow> connections server i = None \<Longrightarrow>
     sendChans (deliver server ph uri event ids) i = sendChans server i"
proof (induction ids arbitrary: server)
  case Nil
  then show ?case by simp
next
  case (Cons j ids)
  show ?case
    unfolding deliver_step
    using Cons.prems
    by (subst Cons.IH) (auto simp: keyed_def send_sendChans split: option.splits)
qed

lemma Publish_fields [simp]:
  "connections (Publish ids server uri event) = connections server"
  "subscribers (Publish ids server uri event) = subscribers server"
  by (simp_all add: Publish_def split: option.splits)

lemma Publish_absent:
  "keyed server \<Longrightarrow> connections server i = None \<Longrightarrow>
     sendChans (Publish ids server uri event) i = sendChans server i"
  by (simp add: Publish_def deliver_absent split: option.splits)

lemma subscribeLoop_connections [simp]:
  "connections (subscribeLoop server c m uris) = connections server"
  by (induction uris) (auto split: option.splits)

lemma subscribeLoop_sendChans:
  "i \<noteq> id_conn c \<Longrightarrow> sendChans (subscribeLoop server c m uris) i = sendChans server i"
  by (induction uris) (auto simp: send_sendChans split: option.splits)

lemma subscribeLoop_members:
  "subscribers (subscribeLoop server c m uris) t = Some members' \<Longrightarrow> members' i = Some b \<Longrightarrow>
     i = id_conn c \<or> (\<exists>members. subscribers server t = Some members \<and> members i = Some b)"
  by (induction uris) (auto split: option.splits if_splits)

lemma subscribeLoop_topics:
  "dom (subscribers server) \<subseteq> dom (subscribers (subscribeLoop server c m uris))"
  by (induction uris) (auto split: option.splits)

lemma unsubscribeLoop_connections [simp]:
  "connections (unsubscribeLoop server c m uris) = connections server"
  by (induction uris) (auto split: option.splits)

lemma unsubscribeLoop_sendChans:
  "i \<noteq> id_conn c \<Longrightarrow> sendChans (unsubscribeLoop server c m uris) i = sendChans server i"
  by (induction uris) (auto simp: send_sendChans split: option.splits)

lemma unsubscribeLoop_members:
  "subscribers (unsubscribeLoop server c m uris) t = Some members' \<Longrightarrow> members' i = Some b \<Longrightarrow>
     \<exists>members. subscribers server t = Some members \<and> members i = Some b"
  by (induction uris) (auto split: option.splits if_splits)

lemma unsubscribeLoop_topics:
  "dom (subscribers server) \<subseteq> dom (subscribers (unsubscribeLoop server c m uris))"
  by (induction uris) (auto split: option.splits)

lemma handleRPCCall_fields [simp]:
  "connections (handleRPCCall out ks server c msg) = connections server"
  "subscribers (handleRPCCall out ks server c msg) = subscribers server"
  by (simp_all add: handleRPCCall_def split: sum.splits option.splits prod.splits)

lemma handleRPCCall_sendChans:
  "i \<noteq> id_conn c \<Longrightarrow> sendChans (handleRPCCall out ks server c msg) i = sendChans server i"
  by (simp add: handleRPCCall_def send_sendChans split: sum.splits option.splits prod.splits)

lemma dispatch_connections [simp]:
  "connections (dispatch out nil os server c data) = connections server"
  by (simp add: dispatch_def handleSubscribe_def handleUnSubscribe_def handlePublish_def
      handleHeartbeat_def split: prod.splits msgType.splits sum.splits)

lemma dispatch_sendChans:
  "keyed server \<Longrightarrow> connections server i = None \<Longrightarrow> i \<noteq> id_conn c \<Longrightarrow>
     sendChans (dispatch out nil os server c data) i = sendChans server i"
  by (simp add: dispatch_def handleSubscribe_def handleUnSubscribe_def handlePublish_def
      handleHeartbeat_def handleRPCCall_sendChans subscribeLoop_sendChans
      unsubscribeLoop_sendChans Publish_absent send_sendChans
      split: prod.splits msgType.splits sum.splits)

lemma dispatch_members:
  "subscribers (dispatch out nil os server c data) t = Some members' \<Longrightarrow> members' i = Some b \<Longrightarrow>
     i = id_conn c \<or> (\<exists>members. subscribers server t = Some members \<and> members i = Some b)"
  by (auto simp: dispatch_def handleSubscribe_def handleUnSubscribe_def handlePublish_def
      handleHeartbeat_def dest: subscribeLoop_members unsubscribeLoop_members
      split: prod.splits msgType.splits sum.splits)

lemma dispatch_topics:
  "dom (subscribers server) \<subseteq> dom (subscribers (dispatch out nil os server c data))"
  by (simp add: dispatch_def handleSubscribe_def handleUnSubscribe_def handlePublish_def
      handleHeartbeat_def subscribeLoop_topics unsubscribeLoop_topics
      split: prod.splits msgType.splits sum.splits)

text \<open>
  Routing. The error of \<^verbatim>\<open>parseMessage\<close> is printed and nothing else: \<^verbatim>\<open>receive\<close>
  goes on to the switch, and the frame is routed by the kind that was returned with the
  error. A frame of any kind other than the five routed ones leaves the server as it
  was, and so does a frame of a routed kind other than heartbeat whose fields
  \<^verbatim>\<open>parseWampMessage\<close> refuses. A frame of kind heartbeat is sent back, whether an
  error came with it or not.
\<close>

lemma dispatch_unrouted:
  "parseMessage out data = (t, msg, e) \<Longrightarrow>
     t \<notin> {msgCall, msgSubscribe, msgUnsubscribe, msgPublish, msgHeartbeat} \<Longrightarrow>
     dispatch out nil os server c data = server"
  by (simp add: dispatch_def split: msgType.splits)

lemma dispatch_unparsed:
  assumes "parseMessage out data = (t, msg, e)" and "t \<noteq> msgHeartbeat"
    and "\<forall>k. \<exists>x. parseWampMessage out k msg = Inl x"
  shows "dispatch out nil os server c data = server"
proof -
  from assms(3) obtain x1 x2 x3 where "parseWampMessage out msgCall msg = Inl x1"
    and "parseWampMessage out msgSubscribe msg = Inl x2"
    and "parseWampMessage out msgUnsubscribe msg = Inl x3"
    by metis
  with assms(1,2) show ?thesis
    by (simp add: dispatch_def handleRPCCall_def handleSubscribe_def handleUnSubscribe_def
        handlePublish_def split: msgType.splits)
qed

lemma dispatch_heartbeat:
  "parseMessage out data = (msgHeartbeat, msg, e) \<Longrightarrow>
     dispatch out nil os server c data = send server c (Raw data)"
  by (simp add: dispatch_def handleHeartbeat_def)

lemma receive_Cons:
  "receive out nil server c ((os, data) # frames) =
     receive out nil (dispatch out nil os server c data) c frames"
  by simp

lemma keyed_New: "keyed New"
  by (simp add: keyed_def New_def)

lemma RegisterRPCHandler_fields [simp]:
  "connections (snd (RegisterRPCHandler ks server u fn)) = connections server"
  "subscribers (snd (RegisterRPCHandler ks server u fn)) = subscribers server"
  "sendChans (snd (RegisterRPCHandler ks server u fn)) = sendChans server"
  by (simp_all add: RegisterRPCHandler_def split: uriArg.splits option.splits)

lemma RegisterSubHandler_fields [simp]:
  "connections (snd (RegisterSubHandler server uri fnSub fnPub)) = connections server"
  "subscribers (snd (RegisterSubHandler server uri fnSub fnPub)) = subscribers server"
  "sendChans (snd (RegisterSubHandler server uri fnSub fnPub)) = sendChans server"
  by (simp_all add: RegisterSubHandler_def split: option.splits)

lemma exec_keyed: "keyed server \<Longrightarrow> keyed (exec out nil server op)"
proof (cases op)
  case (Pair os a)
  assume "keyed server"
  then show ?thesis
    unfolding Pair
    by (cases a) (auto simp: keyed_def addConnection_def Let_def deleteConnection_def)
qed

lemma exec_topics: "dom (subscribers server) \<subseteq> dom (subscribers (exec out nil server op))"
proof (cases op)
  case (Pair os a)
  show ?thesis
    unfolding Pair
    using dispatch_topics [of server out nil os]
    by (cases a) (auto simp: addConnection_def Let_def deleteConnection_def purge_apply)
qed

lemma exec_gone:
  assumes "gone i server" and "foreign i (snd op)"
  shows "gone i (exec out nil server op)"
proof (cases op)
  case (Pair os a)
  show ?thesis
  proof (cases a)
    case (OpFrame c data)
    with assms Pair have ne: "id_conn c \<noteq> i"
      by simp
    have "members' i = None"
      if "subscribers (dispatch out nil os server c data) t = Some members'" for t members'
    proof (cases "members' i")
      case None
      then show ?thesis .
    next
      case (Some b)
      from dispatch_members [OF that Some] ne
      obtain members where "subscribers server t = Some members" and "members i = Some b"
        by blast
      with assms(1) show ?thesis
        unfolding gone_def by (metis option.distinct(1))
    qed
    with assms(1) show ?thesis
      unfolding Pair OpFrame by (simp add: gone_def)
  next
    case (OpAdd k ex)
    with assms Pair show ?thesis
      by (auto simp: gone_def addConnection_def Let_def)
  next
    case (OpDelete k)
    with assms Pair show ?thesis
      by (auto simp: gone_def deleteConnection_def purge_apply)
  next
    case (OpPublish uri event)
    with assms Pair show ?thesis
      by (simp add: gone_def)
  next
    case (OpRegisterRPC u fn)
    with assms Pair show ?thesis
      by (simp add: gone_def)
  next
    case (OpRegisterSub uri fnSub fnPub)
    with assms Pair show ?thesis
      by (simp add: gone_def)
  qed
qed

lemma exec_quiet:
  assumes "keyed server" and "gone i server" and "foreign i (snd op)"
  shows "sendChans (exec out nil server op) i = sendChans server i"
proof (cases op)
  case (Pair os a)
  from assms show ?thesis
    unfolding Pair
    by (cases a)
      (auto simp: gone_def addConnection_def Let_def deleteConnection_def Publish_absent
        dispatch_sendChans)
qed

lemma run_Cons: "run out nil server (op # ops) = run out nil (exec out nil server op) ops"
  by (simp add: run_def)

lemma run_Nil: "run out nil server [] = server"
  by (simp add: run_def)

lemma run_keyed: "keyed server \<Longrightarrow> keyed (run out nil server ops)"
  by (induction ops arbitrary: server) (simp_all add: run_Nil run_Cons exec_keyed)

lemma run_topics: "dom (subscribers server) \<subseteq> dom (subscribers (run out nil server ops))"
proof (induction ops arbitrary: server)
  case Nil
  then show ?case by (simp add: run_Nil)
next
  case (Cons op ops)
  from exec_topics Cons.IH show ?case
    unfolding run_Cons by (rule subset_trans)
qed

lemma run_foreign:
  "keyed server \<Longrightarrow> gone i server \<Longrightarrow> \<forall>op \<in> set ops. foreign i (snd op) \<Longrightarrow>
     gone i (run out nil server ops) \<and> sendChans (run out nil server ops) i = sendChans server i"
proof (induction ops arbitrary: server)
  case Nil
  then show ?case by (simp add: run_Nil)
next
  case (Cons op ops)
  then have f: "foreign i (snd op)" and rest: "\<forall>op \<in> set ops. foreign i (snd op)"
    by simp_all
  from Cons.prems(1) have k: "keyed (exec out nil server op)"
    by (rule exec_keyed)
  from Cons.prems(2) f have g: "gone i (exec out nil server op)"
    by (rule exec_gone)
  from Cons.prems(1,2) f have q: "sendChans (exec out nil server op) i = sendChans server i"
    by (rule exec_quiet)
  from Cons.IH [OF k g rest] q show ?case
    unfolding run_Cons by simp
qed

lemma deleteConnection_gone:
  "dom (subscribers server) \<subseteq> set uris \<Longrightarrow> gone i (deleteConnection uris server i)"
  by (auto simp: gone_def deleteConnection_def purge_apply)

lemma deleteConnection_keyed:
  "keyed server \<Longrightarrow> keyed (deleteConnection uris server i)"
  by (auto simp: keyed_def deleteConnection_def)

lemma deleteConnection_sendChans [simp]:
  "sendChans (deleteConnection uris server i) = sendChans server"
  by (simp add: deleteConnection_def)

subsection \<open>Teardown\<close>

text \<open>
  C7: after \<^verbatim>\<open>deleteConnection\<close> of the id \<open>i\<close>, with the loop over all topics, \<open>i\<close> is in
  neither the connection map nor any subscriber set. This stays so through every later
  run of operations that are foreign to \<open>i\<close>: no copy of the subscribers of a topic
  holds \<open>i\<close>, and the channel of \<open>i\<close> gets nothing more, from a \<^verbatim>\<open>Publish\<close> or otherwise.
\<close>

theorem deleteConnection_purges:
  assumes "keyed server" and "ranges uris (subscribers server)"
    and "\<forall>op \<in> set ops. foreign i (snd op)"
  shows "connections (deleteConnection uris server i) i = None
    \<and> (\<forall>t members. subscribers (deleteConnection uris server i) t = Some members \<longrightarrow>
          members i = None)
    \<and> connections (run out nil (deleteConnection uris server i) ops) i = None
    \<and> (\<forall>t members ids.
          subscribers (run out nil (deleteConnection uris server i) ops) t = Some members \<and>
          ranges ids members \<longrightarrow> i \<notin> set ids)
    \<and> sendChans (run out nil (deleteConnection uris server i) ops) i = sendChans server i
    \<and> (\<forall>ids uri event.
          sendChans (Publish ids (run out nil (deleteConnection uris server i) ops) uri event) i =
            sendChans server i)"
proof -
  let ?d = "deleteConnection uris server i"
  let ?r = "run out nil ?d ops"
  from assms(2) have g: "gone i ?d"
    by (simp add: deleteConnection_gone ranges_def)
  from assms(1) have k: "keyed ?d"
    by (rule deleteConnection_keyed)
  from run_foreign [OF k g assms(3)]
  have gr: "gone i ?r" and q: "sendChans ?r i = sendChans server i"
    by simp_all
  from k have kr: "keyed ?r"
    by (rule run_keyed)
  have snap: "i \<notin> set ids" if "subscribers ?r t = Some members \<and> ranges ids members"
    for t members ids
    using that gr by (auto simp: gone_def ranges_def)
  have pub: "sendChans (Publish ids ?r uri event) i = sendChans server i" for ids uri event
    using Publish_absent [OF kr] gr q by (simp add: gone_def)
  from g gr q snap pub show ?thesis
    unfolding gone_def by blast
qed

theorem deleteConnection_purges_witness:
  "keyed srv1 \<and> ranges [''news.sports''] (subscribers srv1)
   \<and> foreign ''c1'' (OpFrame c3 ''Pnews.sports'')
   \<and> subscribers srv1 ''news.sports'' = Some [''c1'' \<mapsto> True, ''c3'' \<mapsto> True]
   \<and> connections (deleteConnection [''news.sports''] srv1 ''c1'') ''c1'' = None
   \<and> sendChans
        (run sampleOut [] (deleteConnection [''news.sports''] srv1 ''c1'')
           [(noOrders\<lparr> idOrder := [''c3''] \<rparr>, OpFrame c3 ''Pnews.sports'')]) ''c1'' = []
   \<and> sendChans
        (run sampleOut [] (deleteConnection [''news.sports''] srv1 ''c1'')
           [(noOrders\<lparr> idOrder := [''c3''] \<rparr>, OpFrame c3 ''Pnews.sports'')]) ''c3'' =
        [createMessage msgEvent [ArgStr ''news.sports'', ArgVal ''goal'']]"
proof -
  have k: "keyed srv1"
    by (simp add: keyed_def srv1_def c1_def c3_def)
  have r: "ranges [''news.sports''] (subscribers srv1)"
    by (simp add: ranges_def srv1_def)
  have f: "\<forall>op \<in> set [(noOrders\<lparr> idOrder := [''c3''] \<rparr>, OpFrame c3 ''Pnews.sports'')].
      foreign ''c1'' (snd op)"
    by (simp add: c3_def)
  have s: "subscribers srv1 ''news.sports'' = Some [''c1'' \<mapsto> True, ''c3'' \<mapsto> True]"
    "sendChans srv1 ''c1'' = []"
    by (simp_all add: srv1_def)
  have upd: "[''c1'' \<mapsto> True, ''c3'' \<mapsto> True](''c1'' := None) = [''c3'' \<mapsto> True]"
    by (rule ext) simp
  have d: "deleteConnection [''news.sports''] srv1 ''c1'' =
      srv1\<lparr> connections := [''c3'' \<mapsto> c3],
            subscribers := [''news.sports'' \<mapsto> [''c3'' \<mapsto> True]] \<rparr>"
    by (simp add: deleteConnection_def srv1_def upd fun_upd_twist)
  have p: "parseMessage sampleOut ''Pnews.sports'' = (msgPublish, [''news.sports'', ''goal''], None)"
    "parseWampMessage sampleOut msgUnsubscribe [''news.sports'', ''goal''] =
       Inr \<lparr> CallID = [], URI = ''news.sports'', Args = [''goal''] \<rparr>"
    by (simp_all add: sampleOut_def)
  have delivered: "sendChans
        (run sampleOut [] (deleteConnection [''news.sports''] srv1 ''c1'')
           [(noOrders\<lparr> idOrder := [''c3''] \<rparr>, OpFrame c3 ''Pnews.sports'')]) ''c3'' =
        [createMessage msgEvent [ArgStr ''news.sports'', ArgVal ''goal'']]"
    unfolding d
    by (simp add: run_def dispatch_def handlePublish_def p Publish_def snapshot_def
        getConnection_def send_def noOrders_def srv1_def admitAll_def c3_def)
  from deleteConnection_purges [OF k r f, of sampleOut "[]"] k r f s delivered
  show ?thesis
    by simp
qed

subsection \<open>Subscriber sets stay\<close>

text \<open>
  C10: once a subscribe has been admitted for a topic, the subscriber set of that topic
  stays in the map through every later run of operations, whoever leaves it. So an
  unsubscribe frame for that topic after the run never gets the answer with
  \<^verbatim>\<open>ErrSubURINotRegistered\<close>: from a connection outside the set, and so from every
  connection when the set is empty, it gets the answer with \<^verbatim>\<open>ErrNotSubscribes\<close>.
\<close>

theorem subscriber_set_stays:
  assumes "parseWampMessage out msgSubscribe msg0 = Inr m0"
    and "uris0 = pre @ p # post"
    and "\<forall>q \<in> set pre. \<not> prefix q (URI m0)"
    and "prefix p (URI m0)"
    and "subHandlers server0 p = Some h"
    and "subHandler h (id_conn c0) (URI m0) (Args m0)"
    and "server' = run out nil (handleSubscribe out uris0 server0 c0 msg0) ops"
    and "parseWampMessage out msgUnsubscribe msg = Inr m"
    and "URI m = URI m0"
    and "ranges uris (subscribers server')"
  shows "\<exists>members. subscribers server' (URI m0) = Some members \<and>
     handleUnSubscribe out uris server' c msg =
       (case members (id_conn c) of
          Some b \<Rightarrow>
            send (server'\<lparr> subscribers := (subscribers server')
                    (URI m0 \<mapsto> members(id_conn c := None)) \<rparr>)
              c (createMessage msgUnsubscribed [ArgStr (URI m0)])
        | None \<Rightarrow>
            send server' c
              (createMessage msgUnSubscribeError [ArgStr (URI m0), createError ErrNotSubscribes]))"
proof -
  have "subscribeLoop server0 c0 m0 uris0 = subscribeLoop server0 c0 m0 (p # post)"
    using assms(2,3) by (simp add: subscribeLoop_skip)
  with assms(1,4,5,6) have "URI m0 \<in> dom (subscribers (handleSubscribe out uris0 server0 c0 msg0))"
    by (simp add: handleSubscribe_def)
  with run_topics [of "handleSubscribe out uris0 server0 c0 msg0" out nil ops]
  have "URI m0 \<in> dom (subscribers server')"
    unfolding assms(7) by blast
  then obtain members where ms: "subscribers server' (URI m0) = Some members"
    by blast
  with assms(10) have "URI m \<in> set uris"
    by (auto simp: ranges_def assms(9))
  with ms assms(8,9) show ?thesis
    by (simp add: handleUnSubscribe_def unsubscribeLoop_present split: option.splits)
qed

theorem subscriber_set_stays_witness:
  "subscribers srv1 ''news.chess'' = None
   \<and> subscribers
        (run sampleOut []
          (handleSubscribe sampleOut [''private.'', ''news.''] srv1 c3 [''news.chess''])
          [(noOrders\<lparr> topicOrder := [''news.chess'', ''news.sports''] \<rparr>,
            OpFrame c3 ''Unews.chess'')]) ''news.chess'' = Some Map.empty
   \<and> handleUnSubscribe sampleOut [''news.sports'', ''news.chess'']
        (run sampleOut []
          (handleSubscribe sampleOut [''private.'', ''news.''] srv1 c3 [''news.chess''])
          [(noOrders\<lparr> topicOrder := [''news.chess'', ''news.sports''] \<rparr>,
            OpFrame c3 ''Unews.chess'')])
        c1 [''news.chess''] =
      send
        (run sampleOut []
          (handleSubscribe sampleOut [''private.'', ''news.''] srv1 c3 [''news.chess''])
          [(noOrders\<lparr> topicOrder := [''news.chess'', ''news.sports''] \<rparr>,
            OpFrame c3 ''Unews.chess'')])
        c1 (createMessage msgUnSubscribeError [ArgStr ''news.chess'', createError ErrNotSubscribes])"
proof -
  let ?s1 = "handleSubscribe sampleOut [''private.'', ''news.''] srv1 c3 [''news.chess'']"
  let ?s2 = "run sampleOut [] ?s1
      [(noOrders\<lparr> topicOrder := [''news.chess'', ''news.sports''] \<rparr>, OpFrame c3 ''Unews.chess'')]"
  have p0: "parseWampMessage sampleOut msgSubscribe [''news.chess''] =
      Inr \<lparr> CallID = [], URI = ''news.chess'', Args = [] \<rparr>"
    by (simp add: sampleOut_def)
  have p1: "parseWampMessage sampleOut msgUnsubscribe [''news.chess''] =
      Inr \<lparr> CallID = [], URI = ''news.chess'', Args = [] \<rparr>"
    by (simp add: sampleOut_def)
  have pm: "parseMessage sampleOut ''Unews.chess'' = (msgUnsubscribe, [''news.chess''], None)"
    by (simp add: sampleOut_def)
  have none: "subscribers srv1 ''news.chess'' = None"
    by (simp add: srv1_def)
  have idc: "id_conn c3 = ''c3''" "id_conn c1 = ''c1''"
    by (simp_all add: c1_def c3_def)
  have s1: "subscribers ?s1 =
      [''news.sports'' \<mapsto> [''c1'' \<mapsto> True, ''c3'' \<mapsto> True], ''news.chess'' \<mapsto> [''c3'' \<mapsto> True]]"
    by (simp add: handleSubscribe_def p0 srv1_def admitAll_def admitNone_def idc
        subscriberExists_def)
  have s2: "subscribers ?s2 =
      [''news.sports'' \<mapsto> [''c1'' \<mapsto> True, ''c3'' \<mapsto> True], ''news.chess'' \<mapsto> Map.empty]"
    by (simp add: run_def dispatch_def pm handleUnSubscribe_def p1 s1 noOrders_def idc)
  have r: "ranges [''news.sports'', ''news.chess''] (subscribers ?s2)"
    unfolding s2 by (auto simp: ranges_def)
  have pre: "[''private.'', ''news.''] = [''private.''] @ ''news.'' # []"
    "\<forall>q \<in> set [''private.'']. \<not> prefix q (URI \<lparr> CallID = [], URI = ''news.chess'', Args = [] \<rparr>)"
    "prefix ''news.'' (URI \<lparr> CallID = [], URI = ''news.chess'', Args = [] \<rparr>)"
    "subHandlers srv1 ''news.'' = Some admitAll"
    "subHandler admitAll (id_conn c3) (URI \<lparr> CallID = [], URI = ''news.chess'', Args = [] \<rparr>)
       (Args \<lparr> CallID = [], URI = ''news.chess'', Args = [] \<rparr>)"
    by (simp_all add: srv1_def admitAll_def)
  let ?m0 = "\<lparr> CallID = [], URI = ''news.chess'', Args = [] \<rparr> :: string wampMsg"
  from subscriber_set_stays [OF p0 pre refl p1 refl r, of c1]
  obtain members where ms: "subscribers ?s2 (URI ?m0) = Some members"
    and u: "handleUnSubscribe sampleOut [''news.sports'', ''news.chess''] ?s2 c1 [''news.chess''] =
       (case members (id_conn c1) of
          Some b \<Rightarrow>
            send (?s2\<lparr> subscribers := (subscribers ?s2)
                    (URI ?m0 \<mapsto> members(id_conn c1 := None)) \<rparr>)
              c1 (createMessage msgUnsubscribed [ArgStr (URI ?m0)])
        | None \<Rightarrow>
            send ?s2 c1
              (createMessage msgUnSubscribeError [ArgStr (URI ?m0), createError ErrNotSubscribes]))"
    by blast
  from ms have "members (id_conn c1) = None"
    by (auto simp: s2)
  with u have "handleUnSubscribe sampleOut [''news.sports'', ''news.chess''] ?s2 c1 [''news.chess''] =
      send ?s2 c1
        (createMessage msgUnSubscribeError [ArgStr ''news.chess'', createError ErrNotSubscribes])"
    by simp
  with none s2 show ?thesis
    by simp
qed

end
